theory Spec2Isabelle
  imports Main "HOL-Library.Word"
begin

unbundle bit_operations_syntax

section \<open>Bytes, buffers and errors\<close>

text \<open>
  An \<open>unsigned char\<close> is an 8-bit word; a C buffer is the list of its bytes. The
  strings the two modules exchange with their host (\<open>PyUnicode\<close>/\<open>PyBytes\<close> objects)
  are taken as the byte sequences they carry; argument parsing, reference counting
  and allocation failure (\<open>MemoryError\<close>) belong to the host runtime and are left out.
\<close>

type_synonym u8 = "8 word"
type_synonym bytes = "u8 list"

text \<open>
  Every \<open>PyErr_SetString\<close>/\<open>PyErr_Format\<close> of the two files, by the place that raises it.
  \<open>UndefinedBehaviour\<close> stands for the one place where the C text has no defined
  result on a value the struct can hold (\<open>len % (segment_size/8)\<close> with a segment size
  below 8).
\<close>

datatype error =
    KeyLengthError            \<comment> \<open>ValueError: Key must be KEY_SIZE bytes long\<close>
  | KeyNullError              \<comment> \<open>ValueError: Key cannot be the null string\<close>
  | IVLengthError             \<comment> \<open>ValueError: IV must be BLOCK_SIZE bytes long\<close>
  | UnknownModeError          \<comment> \<open>ValueError: Unknown cipher feedback mode\<close>
  | SegmentSizeError          \<comment> \<open>ValueError: segment_size must be multiple of 8\<close>
  | CounterRequiredError      \<comment> \<open>TypeError: 'counter' keyword parameter is required with CTR mode\<close>
  | CounterNotCallableError   \<comment> \<open>ValueError: 'counter' parameter must be a callable object\<close>
  | CounterNotAllowedError    \<comment> \<open>ValueError: 'counter' parameter only useful with CTR mode\<close>
  | BlockInitError            \<comment> \<open>whatever block_init raised\<close>
  | InputLengthError          \<comment> \<open>ValueError: Input strings must be a multiple of BLOCK_SIZE in length\<close>
  | SegmentLengthError        \<comment> \<open>ValueError: Input strings must be a multiple of the segment size\<close>
  | DecryptDisabledError      \<comment> \<open>ValueError: decrypt function not enabled.\<close>
  | CounterWrappedError       \<comment> \<open>OverflowError: counter wrapped without allow_wraparound\<close>
  | CounterLengthError        \<comment> \<open>TypeError: CTR counter function returned string not of length BLOCK_SIZE\<close>
  | CounterNotStringError     \<comment> \<open>TypeError: CTR counter function didn't return a string\<close>
  | CallError                 \<comment> \<open>an exception of the counter callable's own, or a call of a non-callable\<close>
  | SyncModeError             \<comment> \<open>SystemError: sync() operation not defined for this feedback mode\<close>
  | InitvalTooSmallError      \<comment> \<open>ValueError: initval length too small\<close>
  | InitvalTooLargeError      \<comment> \<open>ValueError: initval length too large\<close>
  | PrefixTooLargeError       \<comment> \<open>ValueError: prefix length too large\<close>
  | SuffixTooLargeError       \<comment> \<open>ValueError: suffix length too large\<close>
  | UndefinedBehaviour

text \<open>
  \<open>memcpy dst d src s n\<close> is \<open>memcpy(dst + d, src + s, n)\<close>, and also \<open>memmove\<close>: the
  bytes copied are those \<open>src\<close> held before the call. \<open>xor_bytes n xs ys\<close> is the loop
  \<open>for (j = 0; j < n; j++) out[j] = xs[j] ^ ys[j]\<close>.
\<close>

definition memcpy :: "bytes \<Rightarrow> nat \<Rightarrow> bytes \<Rightarrow> nat \<Rightarrow> nat \<Rightarrow> bytes" where
  "memcpy dst d src s n = take d dst @ take n (drop s src) @ drop (d + n) dst"

definition xor_bytes :: "nat \<Rightarrow> bytes \<Rightarrow> bytes \<Rightarrow> bytes" where
  "xor_bytes n xs ys = map (\<lambda>j. (xs ! j) XOR (ys ! j)) [0..<n]"

section \<open>The counter of \<open>_counter.c\<close>\<close>

text \<open>
  \<open>PCT_CounterObject\<close>. The buffer \<open>val\<close> holds prefix, counter and suffix; the pointer
  \<open>p\<close> is kept as its offset \<open>p_ofs\<close> into \<open>val\<close>; \<open>inc_func\<close> is one of the two
  increment functions; \<open>carry\<close> is the C \<open>int\<close> (0 or 1).
\<close>

datatype endian = LittleEndian | BigEndian

record PCT_CounterObject =
  prefix :: bytes
  suffix :: bytes
  val :: bytes
  buf_size :: nat
  p_ofs :: nat
  nbytes :: nat
  inc_func :: endian
  shortcut_disabled :: bool
  carry :: nat
  allow_wraparound :: bool

text \<open>
  \<open>CounterObject_init\<close> on the object \<open>self\<close>: the three length checks, then the
  buffer \<open>prefix + initval + suffix\<close>, the two flags, and the carry cleared.
\<close>

definition CounterObject_init ::
  "PCT_CounterObject \<Rightarrow> bytes \<Rightarrow> bytes \<Rightarrow> bytes \<Rightarrow> bool \<Rightarrow> bool \<Rightarrow> error + PCT_CounterObject" where
  "CounterObject_init self pre suf initval allow disable =
     (if length initval < 1 then Inl InitvalTooSmallError
      else if length initval > 0xffff then Inl InitvalTooLargeError
      else if length pre > 0xffff then Inl PrefixTooLargeError
      else if length suf > 0xffff then Inl SuffixTooLargeError
      else Inr (self\<lparr>
        prefix := pre,
        suffix := suf,
        val := pre @ initval @ suf,
        buf_size := length pre + length suf + length initval,
        p_ofs := length pre,
        nbytes := length initval,
        shortcut_disabled := disable,
        carry := 0,
        allow_wraparound := allow\<rparr>))"

text \<open>
  \<open>CounterLE_new\<close> and \<open>CounterBE_new\<close>: a zeroed object, initialised, with the increment
  function of its byte order (the initialiser never reads that field, so the record
  is built with it).
\<close>

definition zeroed_counter :: "endian \<Rightarrow> PCT_CounterObject" where
  "zeroed_counter f = \<lparr>prefix = [], suffix = [], val = [], buf_size = 0, p_ofs = 0,
     nbytes = 0, inc_func = f, shortcut_disabled = False, carry = 0,
     allow_wraparound = False\<rparr>"

definition CounterLE_new :: "bytes \<Rightarrow> bytes \<Rightarrow> bytes \<Rightarrow> bool \<Rightarrow> bool \<Rightarrow> error + PCT_CounterObject" where
  "CounterLE_new pre suf initval allow disable =
     CounterObject_init (zeroed_counter LittleEndian) pre suf initval allow disable"

definition CounterBE_new :: "bytes \<Rightarrow> bytes \<Rightarrow> bytes \<Rightarrow> bool \<Rightarrow> bool \<Rightarrow> error + PCT_CounterObject" where
  "CounterBE_new pre suf initval allow disable =
     CounterObject_init (zeroed_counter BigEndian) pre suf initval allow disable"

text \<open>
  The two increment loops. The first argument counts the iterations left
  (\<open>nbytes - i\<close>), \<open>q\<close> is the offset of the pointer \<open>p\<close>, \<open>cy\<close> the local \<open>carry\<close>:
  \<open>tmp = *p + carry; carry = tmp >> 8; *p = tmp & 0xff\<close>. The little-endian loop walks
  up from \<open>self->p\<close>, the big-endian one down from \<open>self->p + nbytes - 1\<close>.
\<close>

fun CounterLE_loop :: "nat \<Rightarrow> nat \<Rightarrow> nat \<Rightarrow> bytes \<Rightarrow> bytes \<times> nat" where
  "CounterLE_loop 0 q cy buf = (buf, cy)"
| "CounterLE_loop (Suc k) q cy buf =
     (let tmp = unat (buf ! q) + cy
      in CounterLE_loop k (q + 1) (tmp div 256) (buf[q := of_nat (tmp mod 256)]))"

fun CounterBE_loop :: "nat \<Rightarrow> nat \<Rightarrow> nat \<Rightarrow> bytes \<Rightarrow> bytes \<times> nat" where
  "CounterBE_loop 0 q cy buf = (buf, cy)"
| "CounterBE_loop (Suc k) q cy buf =
     (let tmp = unat (buf ! q) + cy
      in CounterBE_loop k (q - 1) (tmp div 256) (buf[q := of_nat (tmp mod 256)]))"

definition CounterLEObject_increment :: "PCT_CounterObject \<Rightarrow> PCT_CounterObject" where
  "CounterLEObject_increment self =
     (case CounterLE_loop (nbytes self) (p_ofs self) 1 (val self) of
        (buf, cy) \<Rightarrow> self\<lparr>val := buf, carry := cy\<rparr>)"

definition CounterBEObject_increment :: "PCT_CounterObject \<Rightarrow> PCT_CounterObject" where
  "CounterBEObject_increment self =
     (case CounterBE_loop (nbytes self) (p_ofs self + nbytes self - 1) 1 (val self) of
        (buf, cy) \<Rightarrow> self\<lparr>val := buf, carry := cy\<rparr>)"

definition call_inc_func :: "PCT_CounterObject \<Rightarrow> PCT_CounterObject" where
  "call_inc_func self =
     (case inc_func self of
        LittleEndian \<Rightarrow> CounterLEObject_increment self
      | BigEndian \<Rightarrow> CounterBEObject_increment self)"

text \<open>
  \<open>_CounterObject_next_value\<close>: the overflow check, then the counter bytes folded into
  a Python integer, most significant byte first (\<open>x = (x << 8) | *p\<close>). It changes
  nothing in the object.
\<close>

fun next_value_loop :: "nat \<Rightarrow> nat \<Rightarrow> bool \<Rightarrow> int \<Rightarrow> bytes \<Rightarrow> int" where
  "next_value_loop 0 q little_endian x buf = x"
| "next_value_loop (Suc k) q little_endian x buf =
     next_value_loop k (if little_endian then q - 1 else q + 1) little_endian
       (push_bit 8 x OR uint (buf ! q)) buf"

definition CounterObject_next_value :: "PCT_CounterObject \<Rightarrow> bool \<Rightarrow> error + int" where
  "CounterObject_next_value self little_endian =
     (if carry self \<noteq> 0 \<and> \<not> allow_wraparound self then Inl CounterWrappedError
      else Inr (next_value_loop (nbytes self)
                  (if little_endian then p_ofs self + nbytes self - 1 else p_ofs self)
                  little_endian 0 (val self)))"

definition CounterLEObject_next_value :: "PCT_CounterObject \<Rightarrow> error + int" where
  "CounterLEObject_next_value self = CounterObject_next_value self True"

definition CounterBEObject_next_value :: "PCT_CounterObject \<Rightarrow> error + int" where
  "CounterBEObject_next_value self = CounterObject_next_value self False"

text \<open>
  \<open>CounterObject_call\<close>: the overflow check first; then the whole buffer is the
  return value and the counter is incremented.
\<close>

definition CounterObject_call :: "PCT_CounterObject \<Rightarrow> (error + bytes) \<times> PCT_CounterObject" where
  "CounterObject_call self =
     (if carry self \<noteq> 0 \<and> \<not> allow_wraparound self then (Inl CounterWrappedError, self)
      else (Inr (take (buf_size self) (val self)), call_inc_func self))"

section \<open>The block cipher a module is instantiated with\<close>

text \<open>
  \<open>block_template.c\<close> is included by each cipher module, which supplies the macros
  \<open>BLOCK_SIZE\<close> and \<open>KEY_SIZE\<close>, the key schedule type \<open>block_state\<close> (the type variable)
  and the functions \<open>block_init\<close>, \<open>block_encrypt\<close> and \<open>block_decrypt\<close>. None of them is
  in the two source files, so they are parameters. \<open>block_init\<close> returns \<open>None\<close> when it
  raises. \<open>BLOCK_SIZE\<close> dimensions the arrays \<open>IV\<close>, \<open>oldCipher\<close> and \<open>temp\<close>, so it is
  positive in every module; the loops below say so in their conditions, which is what
  makes them recursive functions of HOL.
\<close>

record 'st block_cipher =
  BLOCK_SIZE :: nat
  KEY_SIZE :: nat
  block_init :: "bytes \<Rightarrow> 'st option"
  block_encrypt :: "'st \<Rightarrow> bytes \<Rightarrow> bytes"
  block_decrypt :: "'st \<Rightarrow> bytes \<Rightarrow> bytes"

section \<open>The mode engine of \<open>block_template.c\<close>\<close>

text \<open>
  The six values of the \<open>MODE_*\<close> macros. The \<open>default:\<close> branches of the two switches
  (\<open>SystemError\<close>) are for other integers, which \<open>ALGnew\<close> refuses.
\<close>

datatype mode_t = MODE_ECB | MODE_CBC | MODE_CFB | MODE_PGP | MODE_OFB | MODE_CTR

text \<open>
  The object passed as \<open>counter\<close>: a counter of \<open>_counter.c\<close>, any other callable, or an
  object that cannot be called. A callable is the sequence of the outcomes of its
  calls together with the number of calls made so far; a call raises (\<open>None\<close>) or
  returns an object, which is a string or not.
\<close>

datatype py_value = NonString | String bytes

datatype PyObject =
    CounterObject PCT_CounterObject
  | Callable "nat \<Rightarrow> py_value option" nat
  | NotCallable

fun PyObject_HasAttr_SHORTCUT :: "PyObject \<Rightarrow> bool" where
  "PyObject_HasAttr_SHORTCUT (CounterObject ctr) = (\<not> shortcut_disabled ctr)"
| "PyObject_HasAttr_SHORTCUT _ = False"

fun PyCallable_Check :: "PyObject \<Rightarrow> bool" where
  "PyCallable_Check NotCallable = False"
| "PyCallable_Check _ = True"

fun PyObject_CallObject :: "PyObject \<Rightarrow> (error + py_value) \<times> PyObject" where
  "PyObject_CallObject (CounterObject ctr) =
     (case CounterObject_call ctr of
        (Inl e, ctr') \<Rightarrow> (Inl e, CounterObject ctr')
      | (Inr s, ctr') \<Rightarrow> (Inr (String s), CounterObject ctr'))"
| "PyObject_CallObject (Callable f n) =
     (case f n of
        None \<Rightarrow> (Inl CallError, Callable f (Suc n))
      | Some v \<Rightarrow> (Inr v, Callable f (Suc n)))"
| "PyObject_CallObject NotCallable = (Inl CallError, NotCallable)"

text \<open>\<open>ALGobject\<close>: \<open>counter\<close> is \<open>None\<close> for the \<open>NULL\<close> pointer; \<open>prf_mode\<close> is the C \<open>int\<close>.\<close>

record 'st ALGobject =
  mode :: mode_t
  count :: nat
  segment_size :: int
  IV :: bytes
  oldCipher :: bytes
  counter :: "PyObject option"
  counter_shortcut :: bool
  prf_mode :: int
  st :: 'st

text \<open>
  \<open>ALGnew\<close>. The argument \<open>mode_arg\<close> is \<open>None\<close> for an integer outside
  \<open>MODE_ECB .. MODE_CTR\<close>; \<open>iv\<close> is empty when no IV is given. The checks come in the
  order of the source; the RC2-only \<open>effective_keylen\<close> is left out.
\<close>

definition ALGnew ::
  "'st block_cipher \<Rightarrow> bytes \<Rightarrow> mode_t option \<Rightarrow> bytes \<Rightarrow> PyObject option \<Rightarrow> int
     \<Rightarrow> error + 'st ALGobject" where
  "ALGnew c key mode_arg iv ctr segment_size_arg =
     (if KEY_SIZE c \<noteq> 0 \<and> length key \<noteq> KEY_SIZE c then Inl KeyLengthError
      else if KEY_SIZE c = 0 \<and> length key = 0 then Inl KeyNullError
      else if length iv \<noteq> BLOCK_SIZE c \<and> length iv \<noteq> 0 then Inl IVLengthError
      else case mode_arg of
        None \<Rightarrow> Inl UnknownModeError
      | Some m \<Rightarrow>
         (let seg = (if m = MODE_CFB \<and> segment_size_arg = 0 then 8 else segment_size_arg) in
          if m = MODE_CFB \<and> (seg < 1 \<or> seg > int (BLOCK_SIZE c) * 8 \<or> seg AND 7 \<noteq> 0)
          then Inl SegmentSizeError
          else if m = MODE_CTR \<and> ctr = None then Inl CounterRequiredError
          else if m = MODE_CTR \<and> \<not> PyObject_HasAttr_SHORTCUT (the ctr)
                  \<and> \<not> PyCallable_Check (the ctr) then Inl CounterNotCallableError
          else if m \<noteq> MODE_CTR \<and> ctr \<noteq> None then Inl CounterNotAllowedError
          else case block_init c key of
            None \<Rightarrow> Inl BlockInitError
          | Some s \<Rightarrow> Inr \<lparr>
              mode = m,
              count = (if m = MODE_PGP then 8 else BLOCK_SIZE c),
              segment_size = seg,
              IV = memcpy (replicate (BLOCK_SIZE c) 0) 0 iv 0 (length iv),
              oldCipher = replicate (BLOCK_SIZE c) 0,
              counter = ctr,
              counter_shortcut = (m = MODE_CTR \<and> PyObject_HasAttr_SHORTCUT (the ctr)),
              prf_mode = 0,
              st = s\<rparr>))"

subsection \<open>The loops of \<open>ALG_Encrypt\<close> and \<open>ALG_Decrypt\<close>\<close>

text \<open>
  In each loop the argument \<open>str\<close> is the input from the running index on (\<open>str + i\<close>),
  and the bytes returned are those written to \<open>buffer + i\<close> and after; the loop ends
  when no input is left (\<open>i < len\<close> fails).
\<close>

function ECB_encrypt_loop :: "'st block_cipher \<Rightarrow> 'st \<Rightarrow> bytes \<Rightarrow> bytes" where
  "ECB_encrypt_loop c s str =
     (if str \<noteq> [] \<and> 0 < BLOCK_SIZE c
      then block_encrypt c s (take (BLOCK_SIZE c) str)
             @ ECB_encrypt_loop c s (drop (BLOCK_SIZE c) str)
      else [])"
  by pat_completeness auto
termination
  by (relation "measure (\<lambda>(c, s, str). length str)") auto

function ECB_decrypt_loop :: "'st block_cipher \<Rightarrow> 'st \<Rightarrow> bytes \<Rightarrow> bytes" where
  "ECB_decrypt_loop c s str =
     (if str \<noteq> [] \<and> 0 < BLOCK_SIZE c
      then block_decrypt c s (take (BLOCK_SIZE c) str)
             @ ECB_decrypt_loop c s (drop (BLOCK_SIZE c) str)
      else [])"
  by pat_completeness auto
termination
  by (relation "measure (\<lambda>(c, s, str). length str)") auto

text \<open>CBC: the results are the final \<open>IV\<close> (and \<open>oldCipher\<close> when decrypting) and the output.\<close>

function CBC_encrypt_loop :: "'st block_cipher \<Rightarrow> 'st \<Rightarrow> bytes \<Rightarrow> bytes \<Rightarrow> bytes \<times> bytes" where
  "CBC_encrypt_loop c s iv str =
     (if str \<noteq> [] \<and> 0 < BLOCK_SIZE c
      then (let temp = xor_bytes (BLOCK_SIZE c) str iv;
                blk = block_encrypt c s temp;
                iv' = memcpy iv 0 blk 0 (BLOCK_SIZE c)
            in case CBC_encrypt_loop c s iv' (drop (BLOCK_SIZE c) str) of
                 (ivf, buf) \<Rightarrow> (ivf, blk @ buf))
      else (iv, []))"
  by pat_completeness auto
termination
  by (relation "measure (\<lambda>(c, s, iv, str). length str)") auto

function CBC_decrypt_loop ::
  "'st block_cipher \<Rightarrow> 'st \<Rightarrow> bytes \<Rightarrow> bytes \<Rightarrow> bytes \<Rightarrow> bytes \<times> bytes \<times> bytes" where
  "CBC_decrypt_loop c s iv old str =
     (if str \<noteq> [] \<and> 0 < BLOCK_SIZE c
      then (let old' = memcpy old 0 iv 0 (BLOCK_SIZE c);
                temp = block_decrypt c s (take (BLOCK_SIZE c) str);
                out = xor_bytes (BLOCK_SIZE c) temp iv;
                iv' = memcpy iv 0 str 0 (BLOCK_SIZE c)
            in case CBC_decrypt_loop c s iv' old' (drop (BLOCK_SIZE c) str) of
                 (ivf, oldf, buf) \<Rightarrow> (ivf, oldf, out @ buf))
      else (iv, old, []))"
  by pat_completeness auto
termination
  by (relation "measure (\<lambda>(c, s, iv, old, str). length str)") auto

text \<open>
  CFB with the segment size \<open>seg\<close> (bits), which the callers have checked to be at
  least 8; \<open>sz\<close> is \<open>segment_size/8\<close>. The two directions differ in the bytes shifted
  into \<open>IV\<close>: the output when encrypting, the input when decrypting.
\<close>

definition CFB_shift :: "nat \<Rightarrow> int \<Rightarrow> bytes \<Rightarrow> bytes \<Rightarrow> bytes" where
  "CFB_shift bs seg iv fed =
     (if seg = int bs * 8 then memcpy iv 0 fed 0 bs
      else if seg mod 8 = 0
      then (let sz = nat (seg div 8)
            in memcpy (memcpy iv 0 iv sz (bs - sz)) (bs - sz) fed 0 sz)
      else iv)"

function CFB_encrypt_loop ::
  "'st block_cipher \<Rightarrow> 'st \<Rightarrow> int \<Rightarrow> bytes \<Rightarrow> bytes \<Rightarrow> bytes \<times> bytes" where
  "CFB_encrypt_loop c s seg iv str =
     (if str \<noteq> [] \<and> 8 \<le> seg
      then (let sz = nat (seg div 8);
                temp = block_encrypt c s iv;
                out = xor_bytes sz str temp;
                iv' = CFB_shift (BLOCK_SIZE c) seg iv out
            in case CFB_encrypt_loop c s seg iv' (drop sz str) of
                 (ivf, buf) \<Rightarrow> (ivf, out @ buf))
      else (iv, []))"
  by pat_completeness auto
termination
  by (relation "measure (\<lambda>(c, s, seg, iv, str). length str)") auto

function CFB_decrypt_loop ::
  "'st block_cipher \<Rightarrow> 'st \<Rightarrow> int \<Rightarrow> bytes \<Rightarrow> bytes \<Rightarrow> bytes \<times> bytes" where
  "CFB_decrypt_loop c s seg iv str =
     (if str \<noteq> [] \<and> 8 \<le> seg
      then (let sz = nat (seg div 8);
                temp = block_encrypt c s iv;
                out = xor_bytes sz str temp;
                iv' = CFB_shift (BLOCK_SIZE c) seg iv str
            in case CFB_decrypt_loop c s seg iv' (drop sz str) of
                 (ivf, buf) \<Rightarrow> (ivf, out @ buf))
      else (iv, []))"
  by pat_completeness auto
termination
  by (relation "measure (\<lambda>(c, s, seg, iv, str). length str)") auto

function OFB_encrypt_loop :: "'st block_cipher \<Rightarrow> 'st \<Rightarrow> bytes \<Rightarrow> bytes \<Rightarrow> bytes \<times> bytes" where
  "OFB_encrypt_loop c s iv str =
     (if str \<noteq> [] \<and> 0 < BLOCK_SIZE c
      then (let temp = block_encrypt c s iv;
                iv' = memcpy iv 0 temp 0 (BLOCK_SIZE c);
                out = xor_bytes (BLOCK_SIZE c) str temp
            in case OFB_encrypt_loop c s iv' (drop (BLOCK_SIZE c) str) of
                 (ivf, buf) \<Rightarrow> (ivf, out @ buf))
      else (iv, []))"
  by pat_completeness auto
termination
  by (relation "measure (\<lambda>(c, s, iv, str). length str)") auto

function OFB_decrypt_loop :: "'st block_cipher \<Rightarrow> 'st \<Rightarrow> bytes \<Rightarrow> bytes \<Rightarrow> bytes \<times> bytes" where
  "OFB_decrypt_loop c s iv str =
     (if str \<noteq> [] \<and> 0 < BLOCK_SIZE c
      then (let temp = block_encrypt c s iv;
                iv' = memcpy iv 0 temp 0 (BLOCK_SIZE c);
                out = xor_bytes (BLOCK_SIZE c) str iv'
            in case OFB_decrypt_loop c s iv' (drop (BLOCK_SIZE c) str) of
                 (ivf, buf) \<Rightarrow> (ivf, out @ buf))
      else (iv, []))"
  by pat_completeness auto
termination
  by (relation "measure (\<lambda>(c, s, iv, str). length str)") auto

text \<open>
  The byte loops of PGP and CTR over the bytes \<open>str\<close>, from offset \<open>k\<close> of \<open>IV\<close>:
  \<open>buffer[i] = IV[k+i] ^= str[i]\<close> when encrypting (and in CTR), and
  \<open>t = IV[k+i]; buffer[i] = t ^ (IV[k+i] = str[i])\<close> when decrypting in PGP.
\<close>

fun xor_into_IV :: "bytes \<Rightarrow> nat \<Rightarrow> bytes \<Rightarrow> bytes \<times> bytes" where
  "xor_into_IV iv k [] = (iv, [])"
| "xor_into_IV iv k (b # str) =
     (let v = (iv ! k) XOR b
      in case xor_into_IV (iv[k := v]) (Suc k) str of (iv', buf) \<Rightarrow> (iv', v # buf))"

fun store_into_IV :: "bytes \<Rightarrow> nat \<Rightarrow> bytes \<Rightarrow> bytes \<times> bytes" where
  "store_into_IV iv k [] = (iv, [])"
| "store_into_IV iv k (b # str) =
     (let t = iv ! k
      in case store_into_IV (iv[k := b]) (Suc k) str of (iv', buf) \<Rightarrow> (iv', (t XOR b) # buf))"

text \<open>
  The middle loop of the PGP branch, \<open>for (; i < len - BLOCK_SIZE; i += BLOCK_SIZE)\<close>:
  it runs while more than \<open>BLOCK_SIZE\<close> bytes are left, and returns \<open>IV\<close>, the output
  and the input that is left for the last step.
\<close>

function PGP_encrypt_loop ::
  "'st block_cipher \<Rightarrow> 'st \<Rightarrow> bytes \<Rightarrow> bytes \<Rightarrow> bytes \<Rightarrow> bytes \<times> bytes \<times> bytes" where
  "PGP_encrypt_loop c s old iv str =
     (if BLOCK_SIZE c < length str \<and> 0 < BLOCK_SIZE c
      then (case xor_into_IV (block_encrypt c s old) 0 (take (BLOCK_SIZE c) str) of
              (iv', out) \<Rightarrow>
                (case PGP_encrypt_loop c s old iv' (drop (BLOCK_SIZE c) str) of
                   (ivf, buf, rest) \<Rightarrow> (ivf, out @ buf, rest)))
      else (iv, [], str))"
  by pat_completeness auto
termination
  by (relation "measure (\<lambda>(c, s, old, iv, str). length str)") auto

function PGP_decrypt_loop ::
  "'st block_cipher \<Rightarrow> 'st \<Rightarrow> bytes \<Rightarrow> bytes \<Rightarrow> bytes \<Rightarrow> bytes \<times> bytes \<times> bytes" where
  "PGP_decrypt_loop c s old iv str =
     (if BLOCK_SIZE c < length str \<and> 0 < BLOCK_SIZE c
      then (case store_into_IV (block_encrypt c s old) 0 (take (BLOCK_SIZE c) str) of
              (iv', out) \<Rightarrow>
                (case PGP_decrypt_loop c s old iv' (drop (BLOCK_SIZE c) str) of
                   (ivf, buf, rest) \<Rightarrow> (ivf, out @ buf, rest)))
      else (iv, [], str))"
  by pat_completeness auto
termination
  by (relation "measure (\<lambda>(c, s, old, iv, str). length str)") auto

definition PGP_encrypt ::
  "'st block_cipher \<Rightarrow> 'st ALGobject \<Rightarrow> bytes \<Rightarrow> bytes \<times> 'st ALGobject" where
  "PGP_encrypt c self str =
     (if length str \<le> BLOCK_SIZE c - count self
      then (case xor_into_IV (IV self) (count self) str of
              (iv', buf) \<Rightarrow> (buf, self\<lparr>count := count self + length str, IV := iv'\<rparr>))
      else (case xor_into_IV (IV self) (count self) (take (BLOCK_SIZE c - count self) str) of
              (iv1, buf1) \<Rightarrow>
        (case PGP_encrypt_loop c (st self) (oldCipher self) iv1
                (drop (BLOCK_SIZE c - count self) str) of
              (iv2, buf2, rest) \<Rightarrow>
        (case xor_into_IV (block_encrypt c (st self) (oldCipher self)) 0 rest of
              (iv3, buf3) \<Rightarrow>
                (buf1 @ buf2 @ buf3, self\<lparr>count := length rest, IV := iv3\<rparr>)))))"

definition PGP_decrypt ::
  "'st block_cipher \<Rightarrow> 'st ALGobject \<Rightarrow> bytes \<Rightarrow> bytes \<times> 'st ALGobject" where
  "PGP_decrypt c self str =
     (if length str \<le> BLOCK_SIZE c - count self
      then (case store_into_IV (IV self) (count self) str of
              (iv', buf) \<Rightarrow> (buf, self\<lparr>count := count self + length str, IV := iv'\<rparr>))
      else (case store_into_IV (IV self) (count self) (take (BLOCK_SIZE c - count self) str) of
              (iv1, buf1) \<Rightarrow>
        (case PGP_decrypt_loop c (st self) (oldCipher self) iv1
                (drop (BLOCK_SIZE c - count self) str) of
              (iv2, buf2, rest) \<Rightarrow>
        (case store_into_IV (block_encrypt c (st self) (oldCipher self)) 0 rest of
              (iv3, buf3) \<Rightarrow>
                (buf1 @ buf2 @ buf3, self\<lparr>count := length rest, IV := iv3\<rparr>)))))"

text \<open>
  CTR: one new keystream block. With the shortcut the counter object is read and
  incremented in place, after the overflow and the length check; without it the
  object is called, and its result must be a string of \<open>BLOCK_SIZE\<close> bytes. The
  result is the encrypted counter block (the new \<open>IV\<close>) or the error, and the
  counter object after it.
\<close>

definition CTR_new_block ::
  "'st block_cipher \<Rightarrow> 'st \<Rightarrow> bool \<Rightarrow> PyObject option \<Rightarrow> (error + bytes) \<times> PyObject option" where
  "CTR_new_block c s shortcut ctr =
     (case ctr of
        None \<Rightarrow> (Inl UndefinedBehaviour, ctr)
      | Some obj \<Rightarrow>
         if shortcut
         then (case obj of
                 CounterObject co \<Rightarrow>
                   if carry co \<noteq> 0 \<and> \<not> allow_wraparound co then (Inl CounterWrappedError, ctr)
                   else if buf_size co \<noteq> BLOCK_SIZE c then (Inl CounterLengthError, ctr)
                   else (Inr (block_encrypt c s (take (BLOCK_SIZE c) (val co))),
                         Some (CounterObject (call_inc_func co)))
               | _ \<Rightarrow> (Inl UndefinedBehaviour, ctr))
         else (case PyObject_CallObject obj of
                 (Inl e, obj') \<Rightarrow> (Inl e, Some obj')
               | (Inr NonString, obj') \<Rightarrow> (Inl CounterNotStringError, Some obj')
               | (Inr (String b), obj') \<Rightarrow>
                   if length b \<noteq> BLOCK_SIZE c then (Inl CounterLengthError, Some obj')
                   else (Inr (block_encrypt c s b), Some obj')))"

text \<open>
  The \<open>while (i < len)\<close> loop of CTR on \<open>IV\<close>, \<open>count\<close> and the counter. An error leaves
  the loop with the state reached: the rest of the keystream block consumed,
  \<open>count = BLOCK_SIZE\<close>, and no output.
\<close>

function CTR_loop ::
  "'st block_cipher \<Rightarrow> 'st \<Rightarrow> bool \<Rightarrow> bytes \<Rightarrow> nat \<Rightarrow> PyObject option \<Rightarrow> bytes
     \<Rightarrow> (error + bytes) \<times> bytes \<times> nat \<times> PyObject option" where
  "CTR_loop c s shortcut iv cnt ctr str =
     (if str \<noteq> [] \<and> 0 < BLOCK_SIZE c
      then if length str \<le> BLOCK_SIZE c - cnt
        then (case xor_into_IV iv cnt str of
                (iv', buf) \<Rightarrow> (Inr buf, iv', cnt + length str, ctr))
        else (case xor_into_IV iv cnt (take (BLOCK_SIZE c - cnt) str) of
                (iv1, buf1) \<Rightarrow>
                  (case CTR_new_block c s shortcut ctr of
                     (Inl e, ctr') \<Rightarrow> (Inl e, iv1, BLOCK_SIZE c, ctr')
                   | (Inr ks, ctr') \<Rightarrow>
                      (case CTR_loop c s shortcut ks 0 ctr' (drop (BLOCK_SIZE c - cnt) str) of
                         (Inl e, final) \<Rightarrow> (Inl e, final)
                       | (Inr buf, final) \<Rightarrow> (Inr (buf1 @ buf), final))))
      else (Inr [], iv, cnt, ctr))"
  by pat_completeness auto
termination
  by (relation "measure (\<lambda>(c, s, shortcut, iv, cnt, ctr, str).
        2 * length str + (if cnt < BLOCK_SIZE c then 0 else 1))") auto

subsection \<open>The methods of the object\<close>

text \<open>
  \<open>ALG_Encrypt\<close>: the empty input first, then the two length checks, then the
  switch on the mode. The result is the output or the error, and the object as the
  call leaves it.
\<close>

definition ALG_Encrypt ::
  "'st block_cipher \<Rightarrow> 'st ALGobject \<Rightarrow> bytes \<Rightarrow> (error + bytes) \<times> 'st ALGobject" where
  "ALG_Encrypt c self str =
     (if length str = 0 then (Inr [], self)
      else if length str mod BLOCK_SIZE c \<noteq> 0 \<and> mode self \<noteq> MODE_CFB
              \<and> mode self \<noteq> MODE_PGP \<and> mode self \<noteq> MODE_CTR
      then (Inl InputLengthError, self)
      else if mode self = MODE_CFB \<and> segment_size self < 8
      then (Inl UndefinedBehaviour, self)
      else if mode self = MODE_CFB \<and> length str mod nat (segment_size self div 8) \<noteq> 0
      then (Inl SegmentLengthError, self)
      else case mode self of
        MODE_ECB \<Rightarrow> (Inr (ECB_encrypt_loop c (st self) str), self)
      | MODE_CBC \<Rightarrow>
          (case CBC_encrypt_loop c (st self) (IV self) str of
             (iv', buf) \<Rightarrow> (Inr buf, self\<lparr>IV := iv'\<rparr>))
      | MODE_CFB \<Rightarrow>
          (case CFB_encrypt_loop c (st self) (segment_size self) (IV self) str of
             (iv', buf) \<Rightarrow> (Inr buf, self\<lparr>IV := iv'\<rparr>))
      | MODE_PGP \<Rightarrow>
          (case PGP_encrypt c self str of (buf, self') \<Rightarrow> (Inr buf, self'))
      | MODE_OFB \<Rightarrow>
          (case OFB_encrypt_loop c (st self) (IV self) str of
             (iv', buf) \<Rightarrow> (Inr buf, self\<lparr>IV := iv'\<rparr>))
      | MODE_CTR \<Rightarrow>
          (case CTR_loop c (st self) (counter_shortcut self) (IV self) (count self)
                  (counter self) str of
             (res, iv', cnt', ctr') \<Rightarrow>
               (res, self\<lparr>count := cnt', IV := iv', counter := ctr'\<rparr>)))"

text \<open>
  \<open>ALG_Decrypt\<close>: the PRF check comes first, then CTR is handed to \<open>ALG_Encrypt\<close>, and
  only then the empty input and the length checks.
\<close>

definition ALG_Decrypt ::
  "'st block_cipher \<Rightarrow> 'st ALGobject \<Rightarrow> bytes \<Rightarrow> (error + bytes) \<times> 'st ALGobject" where
  "ALG_Decrypt c self str =
     (if prf_mode self \<noteq> 0 then (Inl DecryptDisabledError, self)
      else if mode self = MODE_CTR then ALG_Encrypt c self str
      else if length str = 0 then (Inr [], self)
      else if length str mod BLOCK_SIZE c \<noteq> 0 \<and> mode self \<noteq> MODE_CFB
              \<and> mode self \<noteq> MODE_PGP
      then (Inl InputLengthError, self)
      else if mode self = MODE_CFB \<and> segment_size self < 8
      then (Inl UndefinedBehaviour, self)
      else if mode self = MODE_CFB \<and> length str mod nat (segment_size self div 8) \<noteq> 0
      then (Inl SegmentLengthError, self)
      else case mode self of
        MODE_ECB \<Rightarrow> (Inr (ECB_decrypt_loop c (st self) str), self)
      | MODE_CBC \<Rightarrow>
          (case CBC_decrypt_loop c (st self) (IV self) (oldCipher self) str of
             (iv', old', buf) \<Rightarrow> (Inr buf, self\<lparr>IV := iv', oldCipher := old'\<rparr>))
      | MODE_CFB \<Rightarrow>
          (case CFB_decrypt_loop c (st self) (segment_size self) (IV self) str of
             (iv', buf) \<Rightarrow> (Inr buf, self\<lparr>IV := iv'\<rparr>))
      | MODE_PGP \<Rightarrow>
          (case PGP_decrypt c self str of (buf, self') \<Rightarrow> (Inr buf, self'))
      | MODE_OFB \<Rightarrow>
          (case OFB_decrypt_loop c (st self) (IV self) str of
             (iv', buf) \<Rightarrow> (Inr buf, self\<lparr>IV := iv'\<rparr>))
      | MODE_CTR \<Rightarrow> (Inl UndefinedBehaviour, self))"

text \<open>
  \<open>ALG_Sync\<close>, with its literal 8: the \<open>count\<close> bytes at the head of \<open>IV\<close> move to its
  tail, and the head is filled from \<open>oldCipher + count\<close>.
\<close>

definition ALG_Sync ::
  "'st block_cipher \<Rightarrow> 'st ALGobject \<Rightarrow> (error + unit) \<times> 'st ALGobject" where
  "ALG_Sync c self =
     (if mode self \<noteq> MODE_PGP then (Inl SyncModeError, self)
      else if count self \<noteq> 8
      then (let iv1 = memcpy (IV self) (BLOCK_SIZE c - count self) (IV self) 0 (count self);
                iv2 = memcpy iv1 0 (oldCipher self) (count self) (BLOCK_SIZE c - count self)
            in (Inr (), self\<lparr>count := 8, IV := iv2\<rparr>))
      else (Inr (), self))"

definition ALG_SetMode :: "'st ALGobject \<Rightarrow> int \<Rightarrow> 'st ALGobject" where
  "ALG_SetMode self enable_prf =
     (if enable_prf \<ge> 1 then self\<lparr>prf_mode := enable_prf\<rparr> else self)"

text \<open>A sequence of method calls on one object; the results of the calls are dropped.\<close>

datatype method_call = Encrypt bytes | Decrypt bytes | Sync | SetMode int

fun call_method :: "'st block_cipher \<Rightarrow> 'st ALGobject \<Rightarrow> method_call \<Rightarrow> 'st ALGobject" where
  "call_method c self (Encrypt str) = snd (ALG_Encrypt c self str)"
| "call_method c self (Decrypt str) = snd (ALG_Decrypt c self str)"
| "call_method c self Sync = snd (ALG_Sync c self)"
| "call_method c self (SetMode v) = ALG_SetMode self v"

fun call_methods :: "'st block_cipher \<Rightarrow> 'st ALGobject \<Rightarrow> method_call list \<Rightarrow> 'st ALGobject" where
  "call_methods c self [] = self"
| "call_methods c self (m # ms) = call_methods c (call_method c self m) ms"

section \<open>A small cipher for concrete runs\<close>

text \<open>
  A block cipher of 8 bytes with a one-byte key schedule: byte \<open>j\<close> of a block is
  shifted by the key byte plus \<open>j\<close> (modulo 256). It is not a cipher of the repository; it gives the
  parameters a value where a statement is evaluated on concrete input.
\<close>

fun toy_encrypt :: "u8 \<Rightarrow> bytes \<Rightarrow> bytes" where
  "toy_encrypt k [] = []"
| "toy_encrypt k (b # x) = (b + k) # toy_encrypt (k + 1) x"

fun toy_decrypt :: "u8 \<Rightarrow> bytes \<Rightarrow> bytes" where
  "toy_decrypt k [] = []"
| "toy_decrypt k (b # x) = (b - k) # toy_decrypt (k + 1) x"

definition toy :: "u8 block_cipher" where
  "toy = \<lparr>BLOCK_SIZE = 8, KEY_SIZE = 0,
          block_init = (\<lambda>key. Some (hd key)),
          block_encrypt = toy_encrypt, block_decrypt = toy_decrypt\<rparr>"

text \<open>Fresh engines and counters over it, as the constructors return them.\<close>

definition toy_new :: "mode_t \<Rightarrow> u8 ALGobject" where
  "toy_new m = projr (ALGnew toy [1] (Some m) [] None 0)"

definition toy_counter :: "u8 \<Rightarrow> bool \<Rightarrow> PCT_CounterObject" where
  "toy_counter v allow = projr (CounterBE_new [1, 2, 3, 4, 5, 6, 7] [] [v] allow False)"

definition toy_new_CTR :: "PCT_CounterObject \<Rightarrow> u8 ALGobject" where
  "toy_new_CTR ctr = projr (ALGnew toy [1] (Some MODE_CTR) [] (Some (CounterObject ctr)) 0)"

section \<open>The notions of the specification\<close>

text \<open>
  A length error is one of the two \<open>ValueError\<close>s about the input length, and
  \<open>length_ok\<close> is the length constraint of each mode as the specification states it.
  \<open>counter_errors\<close> are the errors that come out of a CTR refill.
\<close>

definition length_error :: "error + bytes \<Rightarrow> bool" where
  "length_error r = (r = Inl InputLengthError \<or> r = Inl SegmentLengthError)"

definition length_ok :: "'st block_cipher \<Rightarrow> 'st ALGobject \<Rightarrow> bytes \<Rightarrow> bool" where
  "length_ok c self str =
     (case mode self of
        MODE_ECB \<Rightarrow> length str mod BLOCK_SIZE c = 0
      | MODE_CBC \<Rightarrow> length str mod BLOCK_SIZE c = 0
      | MODE_OFB \<Rightarrow> length str mod BLOCK_SIZE c = 0
      | MODE_CFB \<Rightarrow> length str mod nat (segment_size self div 8) = 0
      | MODE_PGP \<Rightarrow> True
      | MODE_CTR \<Rightarrow> True)"

definition counter_errors :: "error set" where
  "counter_errors = {CounterWrappedError, CounterLengthError, CounterNotStringError,
     CallError, UndefinedBehaviour}"




definition one_byte_counter ::
  "endian \<Rightarrow> bytes \<Rightarrow> bytes \<Rightarrow> bool \<Rightarrow> bool \<Rightarrow> u8 \<Rightarrow> nat \<Rightarrow> PCT_CounterObject" where
  "one_byte_counter f pre suf allow disable w cy =
     \<lparr>prefix = pre, suffix = suf, val = pre @ [w] @ suf,
      buf_size = length pre + length suf + 1, p_ofs = length pre, nbytes = 1,
      inc_func = f, shortcut_disabled = disable, carry = cy, allow_wraparound = allow\<rparr>"

section \<open>Unfolding the loops\<close>

declare ECB_encrypt_loop.simps [simp del] ECB_decrypt_loop.simps [simp del]
  CBC_encrypt_loop.simps [simp del] CBC_decrypt_loop.simps [simp del]
  CFB_encrypt_loop.simps [simp del] CFB_decrypt_loop.simps [simp del]
  OFB_encrypt_loop.simps [simp del] OFB_decrypt_loop.simps [simp del]
  PGP_encrypt_loop.simps [simp del] PGP_decrypt_loop.simps [simp del]
  CTR_loop.simps [simp del]

lemma ECB_encrypt_loop_Nil: "ECB_encrypt_loop c s [] = []"
  by (simp add: ECB_encrypt_loop.simps)

lemma ECB_encrypt_loop_Cons:
  "0 < BLOCK_SIZE c \<Longrightarrow> ECB_encrypt_loop c s (b # str) =
     block_encrypt c s (take (BLOCK_SIZE c) (b # str))
       @ ECB_encrypt_loop c s (drop (BLOCK_SIZE c) (b # str))"
  by (subst ECB_encrypt_loop.simps) simp

lemma ECB_decrypt_loop_Nil: "ECB_decrypt_loop c s [] = []"
  by (simp add: ECB_decrypt_loop.simps)

lemma ECB_decrypt_loop_Cons:
  "0 < BLOCK_SIZE c \<Longrightarrow> ECB_decrypt_loop c s (b # str) =
     block_decrypt c s (take (BLOCK_SIZE c) (b # str))
       @ ECB_decrypt_loop c s (drop (BLOCK_SIZE c) (b # str))"
  by (subst ECB_decrypt_loop.simps) simp

lemma CBC_encrypt_loop_Nil: "CBC_encrypt_loop c s iv [] = (iv, [])"
  by (simp add: CBC_encrypt_loop.simps)

lemma CBC_encrypt_loop_Cons:
  "0 < BLOCK_SIZE c \<Longrightarrow> CBC_encrypt_loop c s iv (b # str) =
     (case CBC_encrypt_loop c s
             (memcpy iv 0 (block_encrypt c s (xor_bytes (BLOCK_SIZE c) (b # str) iv)) 0 (BLOCK_SIZE c))
             (drop (BLOCK_SIZE c) (b # str)) of
        (ivf, buf) \<Rightarrow> (ivf, block_encrypt c s (xor_bytes (BLOCK_SIZE c) (b # str) iv) @ buf))"
  by (subst CBC_encrypt_loop.simps) (simp add: Let_def)

lemma CBC_decrypt_loop_Nil: "CBC_decrypt_loop c s iv old [] = (iv, old, [])"
  by (simp add: CBC_decrypt_loop.simps)

lemma CBC_decrypt_loop_Cons:
  "0 < BLOCK_SIZE c \<Longrightarrow> CBC_decrypt_loop c s iv old (b # str) =
     (case CBC_decrypt_loop c s (memcpy iv 0 (b # str) 0 (BLOCK_SIZE c))
             (memcpy old 0 iv 0 (BLOCK_SIZE c)) (drop (BLOCK_SIZE c) (b # str)) of
        (ivf, oldf, buf) \<Rightarrow>
          (ivf, oldf,
           xor_bytes (BLOCK_SIZE c) (block_decrypt c s (take (BLOCK_SIZE c) (b # str))) iv @ buf))"
  by (subst CBC_decrypt_loop.simps) (simp add: Let_def)

lemma CFB_encrypt_loop_Nil: "CFB_encrypt_loop c s seg iv [] = (iv, [])"
  by (simp add: CFB_encrypt_loop.simps)

lemma CFB_encrypt_loop_Cons:
  "8 \<le> seg \<Longrightarrow> CFB_encrypt_loop c s seg iv (b # str) =
     (case CFB_encrypt_loop c s seg
             (CFB_shift (BLOCK_SIZE c) seg iv
                (xor_bytes (nat (seg div 8)) (b # str) (block_encrypt c s iv)))
             (drop (nat (seg div 8)) (b # str)) of
        (ivf, buf) \<Rightarrow>
          (ivf, xor_bytes (nat (seg div 8)) (b # str) (block_encrypt c s iv) @ buf))"
  by (subst CFB_encrypt_loop.simps) (simp add: Let_def)

lemma CFB_decrypt_loop_Nil: "CFB_decrypt_loop c s seg iv [] = (iv, [])"
  by (simp add: CFB_decrypt_loop.simps)

lemma CFB_decrypt_loop_Cons:
  "8 \<le> seg \<Longrightarrow> CFB_decrypt_loop c s seg iv (b # str) =
     (case CFB_decrypt_loop c s seg (CFB_shift (BLOCK_SIZE c) seg iv (b # str))
             (drop (nat (seg div 8)) (b # str)) of
        (ivf, buf) \<Rightarrow>
          (ivf, xor_bytes (nat (seg div 8)) (b # str) (block_encrypt c s iv) @ buf))"
  by (subst CFB_decrypt_loop.simps) (simp add: Let_def)

lemma OFB_encrypt_loop_Nil: "OFB_encrypt_loop c s iv [] = (iv, [])"
  by (simp add: OFB_encrypt_loop.simps)

lemma OFB_encrypt_loop_Cons:
  "0 < BLOCK_SIZE c \<Longrightarrow> OFB_encrypt_loop c s iv (b # str) =
     (case OFB_encrypt_loop c s (memcpy iv 0 (block_encrypt c s iv) 0 (BLOCK_SIZE c))
             (drop (BLOCK_SIZE c) (b # str)) of
        (ivf, buf) \<Rightarrow>
          (ivf, xor_bytes (BLOCK_SIZE c) (b # str) (block_encrypt c s iv) @ buf))"
  by (subst OFB_encrypt_loop.simps) (simp add: Let_def)

lemma OFB_decrypt_loop_Nil: "OFB_decrypt_loop c s iv [] = (iv, [])"
  by (simp add: OFB_decrypt_loop.simps)

lemma OFB_decrypt_loop_Cons:
  "0 < BLOCK_SIZE c \<Longrightarrow> OFB_decrypt_loop c s iv (b # str) =
     (case OFB_decrypt_loop c s (memcpy iv 0 (block_encrypt c s iv) 0 (BLOCK_SIZE c))
             (drop (BLOCK_SIZE c) (b # str)) of
        (ivf, buf) \<Rightarrow>
          (ivf, xor_bytes (BLOCK_SIZE c) (b # str)
                  (memcpy iv 0 (block_encrypt c s iv) 0 (BLOCK_SIZE c)) @ buf))"
  by (subst OFB_decrypt_loop.simps) (simp add: Let_def)

lemma PGP_encrypt_loop_step:
  "BLOCK_SIZE c < length str \<Longrightarrow> 0 < BLOCK_SIZE c \<Longrightarrow>
   PGP_encrypt_loop c s old iv str =
     (case xor_into_IV (block_encrypt c s old) 0 (take (BLOCK_SIZE c) str) of
        (iv', out) \<Rightarrow>
          (case PGP_encrypt_loop c s old iv' (drop (BLOCK_SIZE c) str) of
             (ivf, buf, rest) \<Rightarrow> (ivf, out @ buf, rest)))"
  by (subst PGP_encrypt_loop.simps) simp

lemma PGP_encrypt_loop_done:
  "length str \<le> BLOCK_SIZE c \<Longrightarrow> PGP_encrypt_loop c s old iv str = (iv, [], str)"
  by (subst PGP_encrypt_loop.simps) simp

lemma PGP_decrypt_loop_step:
  "BLOCK_SIZE c < length str \<Longrightarrow> 0 < BLOCK_SIZE c \<Longrightarrow>
   PGP_decrypt_loop c s old iv str =
     (case store_into_IV (block_encrypt c s old) 0 (take (BLOCK_SIZE c) str) of
        (iv', out) \<Rightarrow>
          (case PGP_decrypt_loop c s old iv' (drop (BLOCK_SIZE c) str) of
             (ivf, buf, rest) \<Rightarrow> (ivf, out @ buf, rest)))"
  by (subst PGP_decrypt_loop.simps) simp

lemma PGP_decrypt_loop_done:
  "length str \<le> BLOCK_SIZE c \<Longrightarrow> PGP_decrypt_loop c s old iv str = (iv, [], str)"
  by (subst PGP_decrypt_loop.simps) simp

lemma CTR_loop_Nil: "CTR_loop c s shortcut iv cnt ctr [] = (Inr [], iv, cnt, ctr)"
  by (simp add: CTR_loop.simps)

lemma CTR_loop_last:
  "str \<noteq> [] \<Longrightarrow> 0 < BLOCK_SIZE c \<Longrightarrow> length str \<le> BLOCK_SIZE c - cnt \<Longrightarrow>
   CTR_loop c s shortcut iv cnt ctr str =
     (case xor_into_IV iv cnt str of (iv', buf) \<Rightarrow> (Inr buf, iv', cnt + length str, ctr))"
  by (subst CTR_loop.simps) simp

lemma CTR_loop_more:
  "0 < BLOCK_SIZE c \<Longrightarrow> BLOCK_SIZE c - cnt < length str \<Longrightarrow>
   CTR_loop c s shortcut iv cnt ctr str =
     (case xor_into_IV iv cnt (take (BLOCK_SIZE c - cnt) str) of
        (iv1, buf1) \<Rightarrow>
          (case CTR_new_block c s shortcut ctr of
             (Inl e, ctr') \<Rightarrow> (Inl e, iv1, BLOCK_SIZE c, ctr')
           | (Inr ks, ctr') \<Rightarrow>
              (case CTR_loop c s shortcut ks 0 ctr' (drop (BLOCK_SIZE c - cnt) str) of
                 (Inl e, final) \<Rightarrow> (Inl e, final)
               | (Inr buf, final) \<Rightarrow> (Inr (buf1 @ buf), final))))"
  by (subst CTR_loop.simps) auto

text \<open>The facts that evaluate a call on concrete input.\<close>

lemmas eval_loops =
  ECB_encrypt_loop_Nil ECB_encrypt_loop_Cons ECB_decrypt_loop_Nil ECB_decrypt_loop_Cons
  CBC_encrypt_loop_Nil CBC_encrypt_loop_Cons CBC_decrypt_loop_Nil CBC_decrypt_loop_Cons
  CFB_encrypt_loop_Nil CFB_encrypt_loop_Cons CFB_decrypt_loop_Nil CFB_decrypt_loop_Cons
  OFB_encrypt_loop_Nil OFB_encrypt_loop_Cons OFB_decrypt_loop_Nil OFB_decrypt_loop_Cons
  PGP_encrypt_loop_step PGP_encrypt_loop_done PGP_decrypt_loop_step PGP_decrypt_loop_done
  CTR_loop_Nil CTR_loop_last CTR_loop_more
  CFB_shift_def memcpy_def xor_bytes_def upt_conv_Cons Let_def
  PGP_encrypt_def PGP_decrypt_def CTR_new_block_def

lemmas eval_counter =
  CounterLE_new_def CounterBE_new_def CounterObject_init_def zeroed_counter_def
  CounterObject_call_def call_inc_func_def CounterLEObject_increment_def
  CounterBEObject_increment_def CounterObject_next_value_def
  CounterLEObject_next_value_def CounterBEObject_next_value_def

lemmas eval_toy =
  toy_def toy_new_def toy_new_CTR_def toy_counter_def ALGnew_def
  ALG_Encrypt_def ALG_Decrypt_def ALG_Sync_def ALG_SetMode_def

lemma replicate_numeral_eval: "replicate (numeral k) x = x # replicate (pred_numeral k) x"
  by (simp add: numeral_eq_Suc)

lemmas eval_all = eval_toy eval_loops eval_counter replicate_numeral_eval

lemma toy_new_eq:
  "m \<noteq> MODE_CTR \<Longrightarrow> ALGnew toy [1] (Some m) [] None 0 = Inr (toy_new m)"
  by (simp add: ALGnew_def toy_new_def toy_def Let_def)


lemma toy_new_CTR_eq:
  "ALGnew toy [1] (Some MODE_CTR) [] (Some (CounterObject (toy_counter v allow))) 0
     = Inr (toy_new_CTR (toy_counter v allow))"
  by (simp add: ALGnew_def toy_new_CTR_def toy_def Let_def eval_counter toy_counter_def)

section \<open>Errors and frames\<close>

lemma PyObject_CallObject_errors:
  "PyObject_CallObject obj = (Inl e, obj') \<Longrightarrow> e = CounterWrappedError \<or> e = CallError"
  by (cases obj) (auto simp: CounterObject_call_def split: if_splits option.splits)

lemma CTR_new_block_errors:
  "CTR_new_block c s shortcut ctr = (Inl e, ctr') \<Longrightarrow> e \<in> counter_errors"
  by (auto simp: CTR_new_block_def counter_errors_def
      split: option.splits if_splits PyObject.splits prod.splits sum.splits py_value.splits
      dest: PyObject_CallObject_errors)

lemma CTR_loop_errors:
  "CTR_loop c s shortcut iv cnt ctr str = (Inl e, iv', cnt', ctr')
     \<Longrightarrow> e \<in> counter_errors \<and> cnt' = BLOCK_SIZE c"
proof (induction c s shortcut iv cnt ctr str arbitrary: iv' cnt' ctr' rule: CTR_loop.induct)
  case (1 c s shortcut iv cnt ctr str)
  show ?case
  proof (cases "str \<noteq> [] \<and> 0 < BLOCK_SIZE c")
    case False
    with "1.prems" show ?thesis by (simp add: CTR_loop.simps)
  next
    case nonempty: True
    show ?thesis
    proof (cases "length str \<le> BLOCK_SIZE c - cnt")
      case True
      with "1.prems" nonempty show ?thesis
        by (simp add: CTR_loop_last split: prod.splits)
    next
      case False
      obtain iv1 buf1 where x: "xor_into_IV iv cnt (take (BLOCK_SIZE c - cnt) str) = (iv1, buf1)"
        by (cases "xor_into_IV iv cnt (take (BLOCK_SIZE c - cnt) str)")
      obtain r ctr1 where nb: "CTR_new_block c s shortcut ctr = (r, ctr1)"
        by (cases "CTR_new_block c s shortcut ctr")
      show ?thesis
      proof (cases r)
        case (Inl e1)
        with "1.prems" nonempty False x nb show ?thesis
          using CTR_new_block_errors [of c s shortcut ctr e1 ctr1]
          by (simp add: CTR_loop_more)
      next
        case (Inr ks)
        obtain r2 iv2 cnt2 ctr2 where rec:
          "CTR_loop c s shortcut ks 0 ctr1 (drop (BLOCK_SIZE c - cnt) str) = (r2, iv2, cnt2, ctr2)"
          by (cases "CTR_loop c s shortcut ks 0 ctr1 (drop (BLOCK_SIZE c - cnt) str)") auto
        from "1.prems" nonempty False x nb Inr rec
        have "r2 = Inl e" and "iv2 = iv'" and "cnt2 = cnt'" and "ctr2 = ctr'"
          by (auto simp: CTR_loop_more split: sum.splits)
        with "1.IH" [OF nonempty False x [symmetric] nb [symmetric] Inr] rec
        show ?thesis by simp
      qed
    qed
  qed
qed


lemma ALG_Encrypt_frame:
  "mode (snd (ALG_Encrypt c self str)) = mode self"
  "segment_size (snd (ALG_Encrypt c self str)) = segment_size self"
  "oldCipher (snd (ALG_Encrypt c self str)) = oldCipher self"
  "prf_mode (snd (ALG_Encrypt c self str)) = prf_mode self"
  "st (snd (ALG_Encrypt c self str)) = st self"
  "counter_shortcut (snd (ALG_Encrypt c self str)) = counter_shortcut self"
  by (simp_all add: ALG_Encrypt_def PGP_encrypt_def split: mode_t.splits prod.splits)

lemma ALG_Decrypt_frame:
  "mode (snd (ALG_Decrypt c self str)) = mode self"
  "segment_size (snd (ALG_Decrypt c self str)) = segment_size self"
  "mode self \<noteq> MODE_CBC \<Longrightarrow> oldCipher (snd (ALG_Decrypt c self str)) = oldCipher self"
  "prf_mode (snd (ALG_Decrypt c self str)) = prf_mode self"
  "st (snd (ALG_Decrypt c self str)) = st self"
  "counter_shortcut (snd (ALG_Decrypt c self str)) = counter_shortcut self"
  by (simp_all add: ALG_Decrypt_def ALG_Encrypt_frame PGP_decrypt_def
        split: mode_t.splits prod.splits)

lemma ALG_Sync_frame:
  "mode (snd (ALG_Sync c self)) = mode self"
  "segment_size (snd (ALG_Sync c self)) = segment_size self"
  "oldCipher (snd (ALG_Sync c self)) = oldCipher self"
  by (simp_all add: ALG_Sync_def Let_def)

lemma ALG_SetMode_frame:
  "mode (ALG_SetMode self v) = mode self"
  "segment_size (ALG_SetMode self v) = segment_size self"
  "oldCipher (ALG_SetMode self v) = oldCipher self"
  by (simp_all add: ALG_SetMode_def)

lemma call_method_mode: "mode (call_method c self m) = mode self"
  by (cases m) (simp_all add: ALG_Encrypt_frame ALG_Decrypt_frame ALG_Sync_frame ALG_SetMode_frame)

lemma call_method_segment_size: "segment_size (call_method c self m) = segment_size self"
  by (cases m) (simp_all add: ALG_Encrypt_frame ALG_Decrypt_frame ALG_Sync_frame ALG_SetMode_frame)

lemma call_method_oldCipher:
  "mode self \<noteq> MODE_CBC \<Longrightarrow> oldCipher (call_method c self m) = oldCipher self"
  by (cases m) (simp_all add: ALG_Encrypt_frame ALG_Decrypt_frame ALG_Sync_frame ALG_SetMode_frame)

lemma call_methods_mode: "mode (call_methods c self ms) = mode self"
  by (induction ms arbitrary: self) (simp_all add: call_method_mode)

lemma call_methods_segment_size: "segment_size (call_methods c self ms) = segment_size self"
  by (induction ms arbitrary: self) (simp_all add: call_method_segment_size)

lemma call_methods_oldCipher:
  "mode self \<noteq> MODE_CBC \<Longrightarrow> oldCipher (call_methods c self ms) = oldCipher self"
  by (induction ms arbitrary: self) (simp_all add: call_method_oldCipher call_method_mode)

lemma and_7_eq_mod_8: "(x::int) AND 7 = x mod 8"
  using take_bit_eq_mask [of 3 x] take_bit_eq_mod [of 3 x]
  by (simp add: mask_eq_exp_minus_1)

lemma ALGnew_Inr:
  assumes "ALGnew c key m iv ctr seg = Inr self"
  shows "\<exists>md s. m = Some md \<and> block_init c key = Some s
           \<and> (length iv = BLOCK_SIZE c \<or> length iv = 0)
           \<and> (md = MODE_CFB \<longrightarrow> 1 \<le> segment_size self
                 \<and> segment_size self \<le> int (BLOCK_SIZE c) * 8 \<and> segment_size self AND 7 = 0)
           \<and> ((md = MODE_CTR) = (ctr \<noteq> None))
           \<and> self = \<lparr>mode = md,
                count = (if md = MODE_PGP then 8 else BLOCK_SIZE c),
                segment_size = (if md = MODE_CFB \<and> seg = 0 then 8 else seg),
                IV = memcpy (replicate (BLOCK_SIZE c) 0) 0 iv 0 (length iv),
                oldCipher = replicate (BLOCK_SIZE c) 0,
                counter = ctr,
                counter_shortcut = (md = MODE_CTR \<and> PyObject_HasAttr_SHORTCUT (the ctr)),
                prf_mode = 0,
                st = s\<rparr>"
proof (cases m)
  case None
  with assms show ?thesis by (simp add: ALGnew_def split: if_splits)
next
  case (Some md)
  show ?thesis
  proof (cases "block_init c key")
    case None
    with assms Some show ?thesis by (simp add: ALGnew_def Let_def split: if_splits)
  next
    case (Some s)
    with assms \<open>m = Some md\<close> show ?thesis
      by (simp add: ALGnew_def Let_def linorder_not_less split: if_splits) auto
  qed
qed

lemma ALGnew_fields:
  assumes "ALGnew c key m iv ctr seg = Inr self"
  shows "m = Some (mode self)"
    and "oldCipher self = replicate (BLOCK_SIZE c) 0"
    and "length (IV self) = BLOCK_SIZE c"
    and "count self = (if mode self = MODE_PGP then 8 else BLOCK_SIZE c)"
    and "prf_mode self = 0"
    and "mode self = MODE_CFB \<Longrightarrow>
           8 \<le> segment_size self \<and> segment_size self \<le> int (BLOCK_SIZE c) * 8
             \<and> segment_size self mod 8 = 0"
    and "block_init c key = Some (st self)"
    and "(counter self \<noteq> None) = (mode self = MODE_CTR)"
proof -
  from ALGnew_Inr [OF assms] obtain md s where *:
    "m = Some md" "block_init c key = Some s"
    "length iv = BLOCK_SIZE c \<or> length iv = 0"
    "md = MODE_CFB \<longrightarrow> 1 \<le> segment_size self
       \<and> segment_size self \<le> int (BLOCK_SIZE c) * 8 \<and> segment_size self AND 7 = 0"
    "(md = MODE_CTR) = (ctr \<noteq> None)"
    and self: "self = \<lparr>mode = md,
                count = (if md = MODE_PGP then 8 else BLOCK_SIZE c),
                segment_size = (if md = MODE_CFB \<and> seg = 0 then 8 else seg),
                IV = memcpy (replicate (BLOCK_SIZE c) 0) 0 iv 0 (length iv),
                oldCipher = replicate (BLOCK_SIZE c) 0,
                counter = ctr,
                counter_shortcut = (md = MODE_CTR \<and> PyObject_HasAttr_SHORTCUT (the ctr)),
                prf_mode = 0,
                st = s\<rparr>"
    by blast
  have md: "mode self = md" by (subst self) simp
  show "m = Some (mode self)" using * md by simp
  show "oldCipher self = replicate (BLOCK_SIZE c) 0" by (subst self) simp
  show "length (IV self) = BLOCK_SIZE c" using *(3) by (subst self) (auto simp: memcpy_def)
  show "count self = (if mode self = MODE_PGP then 8 else BLOCK_SIZE c)"
    unfolding md by (subst self) simp
  show "prf_mode self = 0" by (subst self) simp
  show "block_init c key = Some (st self)" using *(2) by (subst self) simp
  show "(counter self \<noteq> None) = (mode self = MODE_CTR)"
    unfolding md using *(5) by (subst self) simp
  show "8 \<le> segment_size self \<and> segment_size self \<le> int (BLOCK_SIZE c) * 8
             \<and> segment_size self mod 8 = 0" if "mode self = MODE_CFB"
  proof -
    from that md *(4) have a: "1 \<le> segment_size self"
      "segment_size self \<le> int (BLOCK_SIZE c) * 8" "segment_size self mod 8 = 0"
      by (simp_all add: and_7_eq_mod_8)
    then have "8 \<le> segment_size self" by presburger
    with a show ?thesis by simp
  qed
qed

lemma ALG_Encrypt_CTR:
  "mode self = MODE_CTR \<Longrightarrow> str \<noteq> [] \<Longrightarrow>
   ALG_Encrypt c self str =
     (case CTR_loop c (st self) (counter_shortcut self) (IV self) (count self) (counter self) str of
        (res, iv', cnt', ctr') \<Rightarrow> (res, self\<lparr>count := cnt', IV := iv', counter := ctr'\<rparr>))"
  by (simp add: ALG_Encrypt_def)

lemma ALG_Encrypt_CTR_error:
  assumes "mode self = MODE_CTR" and "fst (ALG_Encrypt c self str) = Inl e"
  shows "e \<in> counter_errors"
    and "snd (ALG_Encrypt c self str) =
           self\<lparr>count := BLOCK_SIZE c, IV := IV (snd (ALG_Encrypt c self str)),
                counter := counter (snd (ALG_Encrypt c self str))\<rparr>"
proof -
  from assms have ne: "str \<noteq> []" by (auto simp: ALG_Encrypt_def)
  obtain res iv' cnt' ctr' where loop:
    "CTR_loop c (st self) (counter_shortcut self) (IV self) (count self) (counter self) str
       = (res, iv', cnt', ctr')"
    by (cases "CTR_loop c (st self) (counter_shortcut self) (IV self) (count self) (counter self) str")
       auto
  with assms ne have res: "res = Inl e" by (simp add: ALG_Encrypt_CTR)
  from CTR_loop_errors [OF loop [unfolded res]] have e: "e \<in> counter_errors"
    and cnt: "cnt' = BLOCK_SIZE c" by simp_all
  show "e \<in> counter_errors" by (rule e)
  show "snd (ALG_Encrypt c self str) =
           self\<lparr>count := BLOCK_SIZE c, IV := IV (snd (ALG_Encrypt c self str)),
                counter := counter (snd (ALG_Encrypt c self str))\<rparr>"
    using assms(1) ne loop cnt by (simp add: ALG_Encrypt_CTR)
qed

lemma ALG_Encrypt_not_CTR_error:
  "mode self \<noteq> MODE_CTR \<Longrightarrow> fst (ALG_Encrypt c self str) = Inl e \<Longrightarrow>
   snd (ALG_Encrypt c self str) = self \<and>
   (e = InputLengthError \<or> e = SegmentLengthError \<or> e = UndefinedBehaviour)"
  by (cases "mode self")
     (auto simp: ALG_Encrypt_def split: if_splits prod.splits)

lemma ALG_Decrypt_not_CTR_error:
  "mode self \<noteq> MODE_CTR \<Longrightarrow> fst (ALG_Decrypt c self str) = Inl e \<Longrightarrow>
   snd (ALG_Decrypt c self str) = self \<and>
   (e = InputLengthError \<or> e = SegmentLengthError \<or> e = UndefinedBehaviour
      \<or> e = DecryptDisabledError)"
  by (cases "mode self")
     (auto simp: ALG_Decrypt_def split: if_splits prod.splits)

lemma counter_errors_not_length: "e \<in> counter_errors \<Longrightarrow> \<not> length_error (Inl e)"
  by (auto simp: counter_errors_def length_error_def)

lemma ALG_Encrypt_length_error:
  assumes "mode self = MODE_CFB \<Longrightarrow> 8 \<le> segment_size self"
  shows "length_error (fst (ALG_Encrypt c self str)) = (\<not> length_ok c self str)"
proof (cases "mode self = MODE_CTR")
  case True
  have "\<not> length_error (fst (ALG_Encrypt c self str))"
  proof (cases "fst (ALG_Encrypt c self str)")
    case (Inl e)
    with ALG_Encrypt_CTR_error(1) [OF True Inl] show ?thesis
      by (simp add: counter_errors_not_length)
  next
    case (Inr b)
    then show ?thesis by (simp add: length_error_def)
  qed
  with True show ?thesis by (simp add: length_ok_def)
next
  case False
  with assms show ?thesis
    by (cases "mode self")
       (auto simp: ALG_Encrypt_def length_error_def length_ok_def split: prod.splits)
qed

lemma ALG_Decrypt_length_error:
  assumes "mode self = MODE_CFB \<Longrightarrow> 8 \<le> segment_size self" and "prf_mode self = 0"
  shows "length_error (fst (ALG_Decrypt c self str)) = (\<not> length_ok c self str)"
proof (cases "mode self = MODE_CTR")
  case True
  with assms(2) have "ALG_Decrypt c self str = ALG_Encrypt c self str"
    by (simp add: ALG_Decrypt_def)
  with assms(1) show ?thesis by (simp add: ALG_Encrypt_length_error)
next
  case False
  with assms show ?thesis
    by (cases "mode self")
       (auto simp: ALG_Decrypt_def length_error_def length_ok_def split: prod.splits)
qed

lemma reachable_segment_size:
  assumes "ALGnew c key m iv ctr seg = Inr new" and "mode (call_methods c new ms) = MODE_CFB"
  shows "8 \<le> segment_size (call_methods c new ms)"
  using ALGnew_fields(6) [OF assms(1)] assms(2)
  by (simp add: call_methods_mode call_methods_segment_size)

section \<open>The claims about rejected calls and frames\<close>

text \<open>
  C9. On an engine in PRF-only mode every \<open>decrypt\<close> call fails at once with the
  error of the disabled operation, whatever the mode and the input, and the engine
  (\<open>iv\<close>, \<open>old_cipher\<close>, \<open>count\<close> and all the rest) is left as it was.
\<close>

theorem decrypt_prf_only:
  "prf_mode self \<noteq> 0 \<Longrightarrow> ALG_Decrypt c self str = (Inl DecryptDisabledError, self)"
  by (simp add: ALG_Decrypt_def)

theorem decrypt_prf_only_witness:
  "prf_mode (ALG_SetMode (toy_new MODE_CBC) 1) \<noteq> 0 \<and>
   ALG_Decrypt toy (ALG_SetMode (toy_new MODE_CBC) 1) [1, 2, 3, 4, 5, 6, 7, 8]
     = (Inl DecryptDisabledError, ALG_SetMode (toy_new MODE_CBC) 1) \<and>
   fst (ALG_Encrypt toy (ALG_SetMode (toy_new MODE_CBC) 1) [1, 2, 3, 4, 5, 6, 7, 8])
     = Inr [2, 4, 6, 8, 10, 12, 14, 16]"
  using decrypt_prf_only [of "ALG_SetMode (toy_new MODE_CBC) 1" toy "[1, 2, 3, 4, 5, 6, 7, 8]"]
  by (simp add: eval_toy eval_loops)

text \<open>
  C6. While the carry flag is set and wrap-around is not allowed, every operation of
  the counter fails with the overflow error: the call (\<open>next()\<close>), before it produces
  any output or increments, and \<open>next_value\<close> in both byte orders; the engine's
  direct use of the counter in CTR mode is refused the same way.
\<close>

theorem counter_wrapped_fails:
  "carry self \<noteq> 0 \<Longrightarrow> \<not> allow_wraparound self \<Longrightarrow>
     CounterObject_call self = (Inl CounterWrappedError, self) \<and>
     CounterLEObject_next_value self = Inl CounterWrappedError \<and>
     CounterBEObject_next_value self = Inl CounterWrappedError \<and>
     PyObject_CallObject (CounterObject self) = (Inl CounterWrappedError, CounterObject self) \<and>
     CTR_new_block c s True (Some (CounterObject self))
       = (Inl CounterWrappedError, Some (CounterObject self))"
  by (simp add: CounterObject_call_def CounterLEObject_next_value_def
        CounterBEObject_next_value_def CounterObject_next_value_def CTR_new_block_def)

theorem counter_wrapped_fails_witness:
  "snd (CounterObject_call (toy_counter 0xFF False))
     = (toy_counter 0xFF False)\<lparr>val := [1, 2, 3, 4, 5, 6, 7, 0], carry := 1\<rparr> \<and>
   carry (snd (CounterObject_call (toy_counter 0xFF False))) \<noteq> 0 \<and>
   \<not> allow_wraparound (snd (CounterObject_call (toy_counter 0xFF False))) \<and>
   CounterObject_call (snd (CounterObject_call (toy_counter 0xFF False)))
     = (Inl CounterWrappedError, snd (CounterObject_call (toy_counter 0xFF False))) \<and>
   CounterBEObject_next_value (snd (CounterObject_call (toy_counter 0xFF False)))
     = Inl CounterWrappedError \<and>
   CounterObject_next_value (toy_counter 0xFF False) False = Inr 255"
  using counter_wrapped_fails [of "snd (CounterObject_call (toy_counter 0xFF False))" toy 1]
  by (simp add: eval_counter toy_counter_def)

text \<open>
  C8, as amended. \<open>encrypt\<close> of the empty input returns the empty output and leaves
  the whole engine unchanged, in every mode and state; so does \<open>decrypt\<close> on an engine
  that is not in PRF-only mode. On a PRF-only engine \<open>decrypt\<close> of the empty input is
  rejected like any other (the engine is still unchanged).
\<close>

theorem empty_input:
  "ALG_Encrypt c self [] = (Inr [], self) \<and>
   ALG_Decrypt c self [] =
     (if prf_mode self = 0 then (Inr [], self) else (Inl DecryptDisabledError, self))"
  by (simp add: ALG_Encrypt_def ALG_Decrypt_def)

theorem empty_input_witness:
  "ALG_Encrypt toy (toy_new MODE_OFB) [] = (Inr [], toy_new MODE_OFB) \<and>
   ALG_Decrypt toy (toy_new MODE_OFB) [] = (Inr [], toy_new MODE_OFB) \<and>
   prf_mode (toy_new MODE_OFB) = 0"
  using empty_input [of toy "toy_new MODE_OFB"]
  by (simp add: eval_toy)

text \<open>
  C8 as stated fails: a fresh ECB engine switched to PRF-only mode rejects the empty
  input in \<open>decrypt\<close>.
\<close>

theorem empty_input_counterexample:
  "ALGnew toy [1] (Some MODE_ECB) [] None 0 = Inr (toy_new MODE_ECB) \<and>
   fst (ALG_Decrypt toy (ALG_SetMode (toy_new MODE_ECB) 1) []) \<noteq> Inr []"
  by (simp add: toy_new_eq ALG_Decrypt_def ALG_SetMode_def)

text \<open>
  C5, as amended. On a CTR engine that is not in PRF-only mode, \<open>decrypt\<close> is \<open>encrypt\<close>:
  the same result and the same engine after it (\<open>iv\<close>, \<open>count\<close> and the counter source
  included), for every input and state.
\<close>

theorem CTR_decrypt_is_encrypt:
  "mode self = MODE_CTR \<Longrightarrow> prf_mode self = 0 \<Longrightarrow>
   ALG_Decrypt c self str = ALG_Encrypt c self str"
  by (simp add: ALG_Decrypt_def)

theorem CTR_decrypt_is_encrypt_witness:
  "mode (toy_new_CTR (toy_counter 3 False)) = MODE_CTR \<and>
   prf_mode (toy_new_CTR (toy_counter 3 False)) = 0 \<and>
   ALG_Decrypt toy (toy_new_CTR (toy_counter 3 False)) [1, 2, 3, 4, 5, 6, 7, 8, 9, 10]
     = ALG_Encrypt toy (toy_new_CTR (toy_counter 3 False)) [1, 2, 3, 4, 5, 6, 7, 8, 9, 10] \<and>
   fst (ALG_Encrypt toy (toy_new_CTR (toy_counter 3 False)) [1, 2, 3, 4, 5, 6, 7, 8, 9, 10])
     = Inr [3, 6, 5, 12, 15, 10, 9, 3, 11, 14] \<and>
   count (snd (ALG_Encrypt toy (toy_new_CTR (toy_counter 3 False)) [1, 2, 3, 4, 5, 6, 7, 8, 9, 10]))
     = 2"
  using CTR_decrypt_is_encrypt [of "toy_new_CTR (toy_counter 3 False)" toy
      "[1, 2, 3, 4, 5, 6, 7, 8, 9, 10]"]
  by (simp add: eval_toy eval_loops eval_counter)

text \<open>
  C5 as stated fails: on a CTR engine in PRF-only mode \<open>encrypt\<close> returns the
  ciphertext and \<open>decrypt\<close> of the same input in the same state is rejected.
\<close>

theorem CTR_decrypt_is_encrypt_counterexample:
  "mode (ALG_SetMode (toy_new_CTR (toy_counter 3 False)) 1) = MODE_CTR \<and>
   fst (ALG_Encrypt toy (ALG_SetMode (toy_new_CTR (toy_counter 3 False)) 1)
          [1, 2, 3, 4, 5, 6, 7, 8, 9, 10]) = Inr [3, 6, 5, 12, 15, 10, 9, 3, 11, 14] \<and>
   fst (ALG_Decrypt toy (ALG_SetMode (toy_new_CTR (toy_counter 3 False)) 1)
          [1, 2, 3, 4, 5, 6, 7, 8, 9, 10]) = Inl DecryptDisabledError"
  by (simp add: eval_toy eval_loops eval_counter)

text \<open>
  C7, as amended. On every engine reached from \<open>ALGnew\<close> by method calls, \<open>encrypt\<close>
  fails with a length error exactly when the input length breaks the length
  constraint of the mode: a multiple of \<open>block_size\<close> for ECB, CBC and OFB, of
  \<open>segment_size/8\<close> for CFB, and no constraint for PGP and CTR. The same holds for
  \<open>decrypt\<close> on an engine that is not in PRF-only mode.
\<close>

theorem length_error_iff:
  "ALGnew c key m iv ctr seg = Inr new \<Longrightarrow> self = call_methods c new ms \<Longrightarrow>
   length_error (fst (ALG_Encrypt c self str)) = (\<not> length_ok c self str) \<and>
   (prf_mode self = 0 \<longrightarrow>
      length_error (fst (ALG_Decrypt c self str)) = (\<not> length_ok c self str))"
  using reachable_segment_size [of c key m iv ctr seg new ms]
  by (simp add: ALG_Encrypt_length_error ALG_Decrypt_length_error)

theorem length_error_iff_witness:
  "ALGnew toy [1] (Some MODE_CFB) [] None 0 = Inr (toy_new MODE_CFB) \<and>
   toy_new MODE_CFB = call_methods toy (toy_new MODE_CFB) [] \<and>
   prf_mode (toy_new MODE_CFB) = 0 \<and>
   length_ok toy (toy_new MODE_CFB) [1, 2, 3] \<and>
   \<not> length_error (fst (ALG_Encrypt toy (toy_new MODE_CFB) [1, 2, 3])) \<and>
   \<not> length_error (fst (ALG_Decrypt toy (toy_new MODE_CFB) [1, 2, 3])) \<and>
   fst (ALG_Encrypt toy (toy_new MODE_CFB) [1, 2, 3]) = Inr [0, 3, 2]"
  using length_error_iff [of toy "[1]" "Some MODE_CFB" "[]" None 0 "toy_new MODE_CFB"
      "toy_new MODE_CFB" "[]" "[1, 2, 3]"]
  by (simp add: toy_new_eq length_ok_def length_error_def eval_all)

text \<open>
  C7 as stated fails for \<open>decrypt\<close>: a fresh ECB engine switched to PRF-only mode
  rejects a 3-byte input (not a multiple of the block size 8) with the PRF error,
  which is not a length error.
\<close>

theorem length_error_iff_counterexample:
  "ALGnew toy [1] (Some MODE_ECB) [] None 0 = Inr (toy_new MODE_ECB) \<and>
   mode (ALG_SetMode (toy_new MODE_ECB) 1) = MODE_ECB \<and>
   length [1, 2, 3 :: u8] mod BLOCK_SIZE toy \<noteq> 0 \<and>
   \<not> length_error (fst (ALG_Decrypt toy (ALG_SetMode (toy_new MODE_ECB) 1) [1, 2, 3]))"
  by (simp add: toy_new_eq length_error_def eval_toy)

text \<open>
  C3, as amended. A rejected \<open>encrypt\<close> or \<open>decrypt\<close> returns no output. When the
  rejection is a length error or the PRF-only refusal of \<open>decrypt\<close>, and in every mode
  but CTR, the engine is exactly as before the call. A call rejected in CTR mode by
  the counter source (overflow, a result of the wrong length or not a string, an
  exception of the generator) leaves \<open>old_cipher\<close> and all other fields unchanged
  but \<open>iv\<close>, \<open>count\<close> and the counter source: they keep what the loop did up to the
  failing refill, and \<open>count\<close> is \<open>block_size\<close>.
\<close>

theorem rejected_call_state:
  "(fst (ALG_Encrypt c self str) = Inl e \<longrightarrow>
      (length_error (Inl e) \<or> mode self \<noteq> MODE_CTR \<longrightarrow> snd (ALG_Encrypt c self str) = self) \<and>
      (mode self = MODE_CTR \<longrightarrow> e \<in> counter_errors \<and>
         snd (ALG_Encrypt c self str) =
           self\<lparr>count := BLOCK_SIZE c, IV := IV (snd (ALG_Encrypt c self str)),
                counter := counter (snd (ALG_Encrypt c self str))\<rparr>)) \<and>
   (fst (ALG_Decrypt c self str) = Inl e \<longrightarrow>
      (length_error (Inl e) \<or> e = DecryptDisabledError \<or> mode self \<noteq> MODE_CTR
         \<longrightarrow> snd (ALG_Decrypt c self str) = self) \<and>
      (mode self = MODE_CTR \<and> prf_mode self = 0 \<longrightarrow> e \<in> counter_errors \<and>
         snd (ALG_Decrypt c self str) =
           self\<lparr>count := BLOCK_SIZE c, IV := IV (snd (ALG_Decrypt c self str)),
                counter := counter (snd (ALG_Decrypt c self str))\<rparr>))"
proof (intro conjI impI)
  assume enc: "fst (ALG_Encrypt c self str) = Inl e"
  show "snd (ALG_Encrypt c self str) = self" if "length_error (Inl e) \<or> mode self \<noteq> MODE_CTR"
  proof (cases "mode self = MODE_CTR")
    case True
    with that ALG_Encrypt_CTR_error(1) [OF True enc] show ?thesis
      by (simp add: counter_errors_not_length)
  next
    case False
    with enc show ?thesis by (simp add: ALG_Encrypt_not_CTR_error)
  qed
  show "e \<in> counter_errors" if "mode self = MODE_CTR"
    using that enc by (rule ALG_Encrypt_CTR_error(1))
  show "snd (ALG_Encrypt c self str) =
           self\<lparr>count := BLOCK_SIZE c, IV := IV (snd (ALG_Encrypt c self str)),
                counter := counter (snd (ALG_Encrypt c self str))\<rparr>" if "mode self = MODE_CTR"
    using that enc by (rule ALG_Encrypt_CTR_error(2))
next
  assume dec: "fst (ALG_Decrypt c self str) = Inl e"
  show "snd (ALG_Decrypt c self str) = self"
    if "length_error (Inl e) \<or> e = DecryptDisabledError \<or> mode self \<noteq> MODE_CTR"
  proof (cases "mode self = MODE_CTR")
    case False
    with dec show ?thesis by (simp add: ALG_Decrypt_not_CTR_error)
  next
    case True
    show ?thesis
    proof (cases "prf_mode self = 0")
      case False
      then show ?thesis by (simp add: ALG_Decrypt_def)
    next
      case unset: True
      with True have eq: "ALG_Decrypt c self str = ALG_Encrypt c self str"
        by (simp add: ALG_Decrypt_def)
      with dec have "e \<in> counter_errors"
        using ALG_Encrypt_CTR_error(1) [OF True, of c str e] by simp
      with that True show ?thesis
        by (auto simp: counter_errors_def length_error_def)
    qed
  qed
  assume ctr: "mode self = MODE_CTR \<and> prf_mode self = 0"
  then have eq: "ALG_Decrypt c self str = ALG_Encrypt c self str"
    by (simp add: ALG_Decrypt_def)
  from ctr dec show "e \<in> counter_errors"
    unfolding eq using ALG_Encrypt_CTR_error(1) [of self c str e] by simp
  from ctr dec show "snd (ALG_Decrypt c self str) =
           self\<lparr>count := BLOCK_SIZE c, IV := IV (snd (ALG_Decrypt c self str)),
                counter := counter (snd (ALG_Decrypt c self str))\<rparr>"
    unfolding eq using ALG_Encrypt_CTR_error(2) [of self c str e] by simp
qed

theorem rejected_call_state_witness:
  "fst (ALG_Encrypt toy (toy_new MODE_CBC) [1, 2, 3]) = Inl InputLengthError \<and>
   length_error (Inl InputLengthError :: error + bytes) \<and>
   snd (ALG_Encrypt toy (toy_new MODE_CBC) [1, 2, 3]) = toy_new MODE_CBC \<and>
   fst (ALG_Decrypt toy (toy_new MODE_CBC) [1, 2, 3]) = Inl InputLengthError \<and>
   snd (ALG_Decrypt toy (toy_new MODE_CBC) [1, 2, 3]) = toy_new MODE_CBC \<and>
   mode (toy_new_CTR (toy_counter 0xFF False)) = MODE_CTR \<and>
   fst (ALG_Encrypt toy (toy_new_CTR (toy_counter 0xFF False))
          [1, 2, 3, 4, 5, 6, 7, 8, 9, 10, 11, 12, 13, 14, 15, 16]) = Inl CounterWrappedError \<and>
   CounterWrappedError \<in> counter_errors \<and>
   count (snd (ALG_Encrypt toy (toy_new_CTR (toy_counter 0xFF False))
          [1, 2, 3, 4, 5, 6, 7, 8, 9, 10, 11, 12, 13, 14, 15, 16])) = 8"
  using rejected_call_state [of toy "toy_new MODE_CBC" "[1, 2, 3]" InputLengthError]
    rejected_call_state [of toy "toy_new_CTR (toy_counter 0xFF False)"
      "[1, 2, 3, 4, 5, 6, 7, 8, 9, 10, 11, 12, 13, 14, 15, 16]" CounterWrappedError]
  by (simp add: length_error_def counter_errors_def eval_all)

text \<open>
  C3 as stated fails: a fresh CTR engine on a one-byte counter that starts at 255
  without wrap-around encrypts the first of two blocks, is rejected with the
  overflow error at the second refill, and is left with \<open>iv\<close> holding the first
  ciphertext block and the counter advanced.
\<close>

theorem rejected_call_state_counterexample:
  "ALGnew toy [1] (Some MODE_CTR) [] (Some (CounterObject (toy_counter 0xFF False))) 0
     = Inr (toy_new_CTR (toy_counter 0xFF False)) \<and>
   fst (ALG_Encrypt toy (toy_new_CTR (toy_counter 0xFF False))
          [1, 2, 3, 4, 5, 6, 7, 8, 9, 10, 11, 12, 13, 14, 15, 16]) = Inl CounterWrappedError \<and>
   IV (toy_new_CTR (toy_counter 0xFF False)) = [0, 0, 0, 0, 0, 0, 0, 0] \<and>
   IV (snd (ALG_Encrypt toy (toy_new_CTR (toy_counter 0xFF False))
          [1, 2, 3, 4, 5, 6, 7, 8, 9, 10, 11, 12, 13, 14, 15, 16]))
     = [3, 6, 5, 12, 15, 10, 9, 15]"
  by (simp add: toy_new_CTR_eq) (simp add: eval_all)

text \<open>
  C10. On an engine built in PGP mode no sequence of \<open>encrypt\<close>, \<open>decrypt\<close>, \<open>sync\<close> (and
  \<open>setMode\<close>) calls changes \<open>old_cipher\<close>: the engine stays in PGP mode and the buffer
  keeps the zero bytes \<open>ALGnew\<close> gave it, so the block that a PGP refill encrypts is
  always that constant.
\<close>

theorem PGP_oldCipher_constant:
  "ALGnew c key (Some MODE_PGP) iv ctr seg = Inr new \<Longrightarrow>
   mode (call_methods c new ms) = MODE_PGP \<and>
   oldCipher (call_methods c new ms) = oldCipher new \<and>
   oldCipher new = replicate (BLOCK_SIZE c) 0"
  using ALGnew_fields(1,2) [of c key "Some MODE_PGP" iv ctr seg new]
  by (simp add: call_methods_mode call_methods_oldCipher)

theorem PGP_oldCipher_constant_witness:
  "ALGnew toy [1] (Some MODE_PGP) [] None 0 = Inr (toy_new MODE_PGP) \<and>
   call_methods toy (toy_new MODE_PGP)
       [Encrypt [1, 2, 3, 4, 5], Sync, Decrypt [1, 2, 3, 4, 5, 6, 7, 8, 9, 10, 11]]
     = (toy_new MODE_PGP)\<lparr>count := 3, IV := [9, 10, 11, 4, 5, 6, 7, 8]\<rparr> \<and>
   oldCipher (call_methods toy (toy_new MODE_PGP)
       [Encrypt [1, 2, 3, 4, 5], Sync, Decrypt [1, 2, 3, 4, 5, 6, 7, 8, 9, 10, 11]])
     = [0, 0, 0, 0, 0, 0, 0, 0]"
  using PGP_oldCipher_constant [of toy "[1]" "[]" None 0 "toy_new MODE_PGP"
      "[Encrypt [1, 2, 3, 4, 5], Sync, Decrypt [1, 2, 3, 4, 5, 6, 7, 8, 9, 10, 11]]"]
  by (simp add: toy_new_eq) (simp add: eval_all)

section \<open>The one-byte counter\<close>







lemma CounterObject_init_one_byte:
  "length pre \<le> 65535 \<Longrightarrow> length suf \<le> 65535 \<Longrightarrow>
   CounterObject_init (zeroed_counter f) pre suf [w] allow disable
     = Inr (one_byte_counter f pre suf allow disable w 0)"
  by (simp add: CounterObject_init_def zeroed_counter_def one_byte_counter_def)













section \<open>PGP mode in two chunks\<close>

lemma length_16_cases:
  assumes "length (xs :: 'a list) = 16"
  obtains x0 x1 x2 x3 x4 x5 x6 x7 x8 x9 x10 x11 x12 x13 x14 x15
  where "xs = [x0, x1, x2, x3, x4, x5, x6, x7, x8, x9, x10, x11, x12, x13, x14, x15]"
  using assms by (auto simp: numeral_eq_Suc length_Suc_conv)

text \<open>
  C4, as amended. In PGP mode with block size 8, encrypting a 16-byte stream on a
  fresh engine as two chunks of 5 and 11 bytes, with no \<open>resync()\<close> between them,
  gives byte for byte the ciphertext of the whole stream encrypted in one call on an
  identically configured fresh engine, and leaves the engine in the same state.
\<close>

theorem PGP_two_chunks:
  assumes "BLOCK_SIZE c = 8"
    and "ALGnew c key (Some MODE_PGP) iv ctr seg = Inr new"
    and "length str = 16"
  shows "\<exists>buf1 buf2 self1 self2.
           ALG_Encrypt c new (take 5 str) = (Inr buf1, self1) \<and>
           ALG_Encrypt c self1 (drop 5 str) = (Inr buf2, self2) \<and>
           ALG_Encrypt c new str = (Inr (buf1 @ buf2), self2)"
proof -
  from ALGnew_Inr [OF assms(2)] assms(1) obtain s where
    new: "new = \<lparr>mode = MODE_PGP, count = 8, segment_size = seg,
                IV = memcpy (replicate 8 0) 0 iv 0 (length iv),
                oldCipher = replicate 8 0, counter = ctr, counter_shortcut = False,
                prf_mode = 0, st = s\<rparr>"
    by auto
  from assms(3) obtain x0 x1 x2 x3 x4 x5 x6 x7 x8 x9 x10 x11 x12 x13 x14 x15
    where str: "str = [x0, x1, x2, x3, x4, x5, x6, x7, x8, x9, x10, x11, x12, x13, x14, x15]"
    by (rule length_16_cases)
  show ?thesis
    unfolding new str
    by (simp add: assms(1) ALG_Encrypt_def PGP_encrypt_def PGP_encrypt_loop_step
          PGP_encrypt_loop_done Let_def list_update_swap)
qed

theorem PGP_two_chunks_witness:
  "BLOCK_SIZE toy = 8 \<and>
   ALGnew toy [1] (Some MODE_PGP) [] None 0 = Inr (toy_new MODE_PGP) \<and>
   length [16, 17, 18, 19, 20, 21, 22, 23, 24, 25, 26, 27, 28, 29, 30, 31 :: u8] = 16 \<and>
   fst (ALG_Encrypt toy (toy_new MODE_PGP) [16, 17, 18, 19, 20]) = Inr [17, 19, 17, 23, 17] \<and>
   fst (ALG_Encrypt toy (snd (ALG_Encrypt toy (toy_new MODE_PGP) [16, 17, 18, 19, 20]))
          [21, 22, 23, 24, 25, 26, 27, 28, 29, 30, 31]) = Inr [19, 17, 31, 25, 27, 25, 31, 25, 27, 25, 23] \<and>
   fst (ALG_Encrypt toy (toy_new MODE_PGP)
          [16, 17, 18, 19, 20, 21, 22, 23, 24, 25, 26, 27, 28, 29, 30, 31])
     = Inr [17, 19, 17, 23, 17, 19, 17, 31, 25, 27, 25, 31, 25, 27, 25, 23]"
  using PGP_two_chunks [of toy "[1]" "[]" None 0 "toy_new MODE_PGP"
      "[16, 17, 18, 19, 20, 21, 22, 23, 24, 25, 26, 27, 28, 29, 30, 31]"]
  by (simp add: toy_new_eq) (simp add: eval_all)

text \<open>
  C4 as stated fails: with \<open>resync()\<close> between the chunks the second chunk starts a
  new keystream block, and the ciphertext differs from the one-call ciphertext from
  its sixth byte on.
\<close>

theorem PGP_two_chunks_counterexample:
  "BLOCK_SIZE toy = 8 \<and>
   ALGnew toy [1] (Some MODE_PGP) [] None 0 = Inr (toy_new MODE_PGP) \<and>
   fst (ALG_Encrypt toy (toy_new MODE_PGP) [16, 17, 18, 19, 20]) = Inr [17, 19, 17, 23, 17] \<and>
   fst (ALG_Sync toy (snd (ALG_Encrypt toy (toy_new MODE_PGP) [16, 17, 18, 19, 20]))) = Inr () \<and>
   fst (ALG_Encrypt toy
          (snd (ALG_Sync toy (snd (ALG_Encrypt toy (toy_new MODE_PGP) [16, 17, 18, 19, 20]))))
          [21, 22, 23, 24, 25, 26, 27, 28, 29, 30, 31])
     = Inr [20, 20, 20, 28, 28, 28, 28, 20, 28, 28, 28] \<and>
   fst (ALG_Encrypt toy (toy_new MODE_PGP)
          [16, 17, 18, 19, 20, 21, 22, 23, 24, 25, 26, 27, 28, 29, 30, 31])
     = Inr [17, 19, 17, 23, 17, 19, 17, 31, 25, 27, 25, 31, 25, 27, 25, 23]"
  by (simp add: toy_new_eq) (simp add: eval_all)

section \<open>Encrypt, then decrypt\<close>



lemma length_xor_bytes [simp]: "length (xor_bytes n xs ys) = n"
  by (simp add: xor_bytes_def)






subsection \<open>ECB\<close>


subsection \<open>CBC\<close>


subsection \<open>OFB\<close>


subsection \<open>CFB\<close>





subsection \<open>PGP\<close>









subsection \<open>CTR\<close>




subsection \<open>The ciphertext is as long as the plaintext\<close>





subsection \<open>The two methods\<close>











end
